theory Spec2Isabelle
  imports Main "HOL-Library.Multiset" "HOL-Library.Word"
begin

section \<open>Exceptions\<close>

text \<open>
  The exceptions that the handlers of \<^verbatim>\<open>main.py\<close> raise or let through, all of them
  subclasses of \<^verbatim>\<open>Exception\<close>: the 404 of the handlers, FastAPI's rejection of a body
  that fails validation, and the errors of the \<^verbatim>\<open>sqlite3\<close> module. \<^verbatim>\<open>OverflowError\<close>
  is what binding a Python \<^verbatim>\<open>int\<close> outside the 64-bit range to a statement raises;
  \<^verbatim>\<open>OperationalError\<close> is what a statement that the database cannot execute raises.
\<close>

datatype validation_kind = Missing | String_too_short

datatype exn =
    HTTPException nat string
  | RequestValidationError string validation_kind
  | TypeError
  | OverflowError
  | OperationalError string

section \<open>The todos table\<close>

text \<open>
  \<^verbatim>\<open>main.py\<close> keeps its whole state in one SQLite table, created by \<^verbatim>\<open>init_database\<close>:
  \<^verbatim>\<open>todo_id INTEGER PRIMARY KEY AUTOINCREMENT, content TEXT NOT NULL,
  completed BOOLEAN NOT NULL DEFAULT 0\<close>.
  A row is a record of the three columns. The key is an SQLite INTEGER, a signed 64-bit
  integer: a \<open>64 word\<close> read with \<open>sint\<close>. \<^verbatim>\<open>completed\<close> is stored as an integer, as
  the \<^verbatim>\<open>sqlite3\<close> module binds a Python \<^verbatim>\<open>bool\<close>. The table is a list of rows in
  storage order, so that uniqueness of the key is a property to prove and not a property
  of the type. The database file holds the table and the \<^verbatim>\<open>sqlite_sequence\<close> counter
  that AUTOINCREMENT maintains (the largest key ever handed out).

  The ids that the handlers receive are Python integers, which are unbounded: \<open>int\<close>.
\<close>

type_synonym rowid = "64 word"

record row =
  col_todo_id :: rowid
  col_content :: string
  col_completed :: int

record db =
  todos :: "row list"
  sqlite_sequence :: rowid

definition empty_db :: db where
  "empty_db = \<lparr>todos = [], sqlite_sequence = 0\<rparr>"

definition min_rowid :: int where
  "min_rowid = - 9223372036854775808"

definition max_rowid :: int where
  "max_rowid = 9223372036854775807"

definition bind_int :: "int \<Rightarrow> exn + rowid" where
  \<comment> \<open>a Python \<^verbatim>\<open>int\<close> as a statement parameter: outside the 64-bit range the module raises
      \<^verbatim>\<open>OverflowError\<close> before the statement runs\<close>
  "bind_int i =
     (if min_rowid \<le> i \<and> i \<le> max_rowid then Inr (word_of_int i) else Inl OverflowError)"

subsection \<open>The five SQL statements of the handlers\<close>

definition select_all_ordered :: "db \<Rightarrow> row list" where
  \<comment> \<open>\<^verbatim>\<open>SELECT * FROM todos ORDER BY todo_id\<close>, then \<^verbatim>\<open>fetchall()\<close>\<close>
  "select_all_ordered d = sort_key (\<lambda>r. sint (col_todo_id r)) (todos d)"

definition select_by_id :: "int \<Rightarrow> db \<Rightarrow> exn + row option" where
  \<comment> \<open>\<^verbatim>\<open>SELECT * FROM todos WHERE todo_id = ?\<close>, then \<^verbatim>\<open>fetchone()\<close>\<close>
  "select_by_id i d =
     (case bind_int i of
        Inl e \<Rightarrow> Inl e
      | Inr k \<Rightarrow> Inr (find (\<lambda>r. col_todo_id r = k) (todos d)))"

definition next_rowid :: "db \<Rightarrow> int" where
  \<comment> \<open>AUTOINCREMENT: one more than the largest key in the table or ever handed out\<close>
  "next_rowid d =
     fold max (map (\<lambda>r. sint (col_todo_id r)) (todos d)) (sint (sqlite_sequence d)) + 1"

definition insert_todo :: "string \<Rightarrow> bool \<Rightarrow> db \<Rightarrow> exn + int \<times> db" where
  \<comment> \<open>\<^verbatim>\<open>INSERT INTO todos (content, completed) VALUES (?, ?)\<close>; the result is
      \<^verbatim>\<open>cursor.lastrowid\<close>. Once the largest 64-bit key was handed out, SQLite refuses
      the statement (SQLITE_FULL).\<close>
  "insert_todo c b d =
     (let i = next_rowid d
      in if max_rowid < i then Inl (OperationalError ''database or disk is full'')
         else Inr (i, \<lparr>todos = todos d @ [\<lparr>col_todo_id = word_of_int i, col_content = c,
                                           col_completed = of_bool b\<rparr>],
                        sqlite_sequence = word_of_int i\<rparr>))"

datatype assignment = SetContent string | SetCompleted bool

fun assign :: "assignment \<Rightarrow> row \<Rightarrow> row" where
  "assign (SetContent c) r = r\<lparr>col_content := c\<rparr>"
| "assign (SetCompleted b) r = r\<lparr>col_completed := of_bool b\<rparr>"

definition update_where_id :: "assignment list \<Rightarrow> int \<Rightarrow> db \<Rightarrow> exn + db" where
  \<comment> \<open>\<^verbatim>\<open>UPDATE todos SET ... WHERE todo_id = ?\<close>\<close>
  "update_where_id updates i d =
     (case bind_int i of
        Inl e \<Rightarrow> Inl e
      | Inr k \<Rightarrow>
          Inr (d\<lparr>todos := map (\<lambda>r. if col_todo_id r = k then fold assign updates r else r)
                              (todos d)\<rparr>))"

definition delete_where_id :: "int \<Rightarrow> db \<Rightarrow> exn + nat \<times> db" where
  \<comment> \<open>\<^verbatim>\<open>DELETE FROM todos WHERE todo_id = ?\<close>; the result is \<^verbatim>\<open>cursor.rowcount\<close>\<close>
  "delete_where_id i d =
     (case bind_int i of
        Inl e \<Rightarrow> Inl e
      | Inr k \<Rightarrow>
          Inr (length (filter (\<lambda>r. col_todo_id r = k) (todos d)),
               d\<lparr>todos := filter (\<lambda>r. col_todo_id r \<noteq> k) (todos d)\<rparr>))"

section \<open>The scoped connection\<close>

datatype conn_call = Commit | Rollback | Close

record conn =
  persisted :: db
  working :: db
  is_open :: bool
  calls :: "conn_call list"

definition connect :: "db \<Rightarrow> conn" where
  "connect d = \<lparr>persisted = d, working = d, is_open = True, calls = []\<rparr>"

definition commit :: "conn \<Rightarrow> conn" where
  "commit c = c\<lparr>persisted := working c, calls := calls c @ [Commit]\<rparr>"

definition rollback :: "conn \<Rightarrow> conn" where
  "rollback c = c\<lparr>working := persisted c, calls := calls c @ [Rollback]\<rparr>"

definition close :: "conn \<Rightarrow> conn" where
  \<comment> \<open>closing drops whatever was not committed\<close>
  "close c = c\<lparr>working := persisted c, is_open := False, calls := calls c @ [Close]\<rparr>"

text \<open>
  \<^verbatim>\<open>get_db_connection\<close> is a context manager; the block under \<^verbatim>\<open>with\<close> is its argument,
  a function from the transaction's working copy to a result (or a raised exception) and the
  working copy it leaves behind. The block only ever calls \<^verbatim>\<open>conn.execute\<close>, so it sees
  the working copy and not the committed state.
\<close>

definition get_db_connection :: "(db \<Rightarrow> (exn + 'a) \<times> db) \<Rightarrow> db \<Rightarrow> (exn + 'a) \<times> conn" where
  "get_db_connection block d =
     (let conn = connect d;
          (r, w) = block (working conn);
          conn = conn\<lparr>working := w\<rparr>
      in case r of
           Inr v \<Rightarrow> (Inr v, close (commit conn))
         | Inl e \<Rightarrow> (Inl e, close (rollback conn)))"

definition closed_file :: "'r \<times> conn \<Rightarrow> 'r \<times> db" where
  \<comment> \<open>what the database file holds once the \<^verbatim>\<open>with\<close> statement is left\<close>
  "closed_file rc = (fst rc, persisted (snd rc))"

definition init_database :: "db option \<Rightarrow> db" where
  \<comment> \<open>\<^verbatim>\<open>CREATE TABLE IF NOT EXISTS todos\<close>: \<open>None\<close> is a file without the table\<close>
  "init_database f = (case f of None \<Rightarrow> empty_db | Some d \<Rightarrow> d)"

section \<open>The pydantic models\<close>

record Todo =
  todo_id :: int
  content :: string
  completed :: bool

record TodoCreate =
  create_content :: string
  create_completed :: bool

record TodoUpdate =
  update_content :: "string option"
  update_completed :: "bool option"

text \<open>
  A request body as it arrives: each of the two keys is present or not. Values of the wrong
  JSON type are outside the model.
\<close>

record json_body =
  json_content :: "string option"
  json_completed :: "bool option"

definition parse_TodoCreate :: "json_body \<Rightarrow> exn + TodoCreate" where
  \<comment> \<open>\<^verbatim>\<open>content: str = Field(..., min_length=1)\<close>, \<^verbatim>\<open>completed: bool = Field(default=False)\<close>\<close>
  "parse_TodoCreate b =
     (case json_content b of
        None \<Rightarrow> Inl (RequestValidationError ''content'' Missing)
      | Some c \<Rightarrow>
          if length c < 1 then Inl (RequestValidationError ''content'' String_too_short)
          else Inr \<lparr>create_content = c,
                    create_completed = (case json_completed b of None \<Rightarrow> False | Some v \<Rightarrow> v)\<rparr>)"

definition parse_TodoUpdate :: "json_body \<Rightarrow> exn + TodoUpdate" where
  \<comment> \<open>\<^verbatim>\<open>content: Optional[str] = Field(None, min_length=1)\<close>,
      \<^verbatim>\<open>completed: Optional[bool] = Field(None)\<close>\<close>
  "parse_TodoUpdate b =
     (case json_content b of
        None \<Rightarrow> Inr \<lparr>update_content = None, update_completed = json_completed b\<rparr>
      | Some c \<Rightarrow>
          if length c < 1 then Inl (RequestValidationError ''content'' String_too_short)
          else Inr \<lparr>update_content = Some c, update_completed = json_completed b\<rparr>)"

definition row_to_todo :: "row \<Rightarrow> Todo" where
  "row_to_todo r =
     \<lparr>todo_id = sint (col_todo_id r), content = col_content r,
      completed = (col_completed r \<noteq> 0)\<rparr>"

section \<open>The handlers\<close>

fun str_nat :: "nat \<Rightarrow> string" where
  "str_nat n =
     (if n < 10 then [''0123456789'' ! n]
      else str_nat (n div 10) @ [''0123456789'' ! (n mod 10)])"

declare str_nat.simps [simp del]

definition str_int :: "int \<Rightarrow> string" where
  \<comment> \<open>Python's \<^verbatim>\<open>str\<close> of an \<^verbatim>\<open>int\<close>, as the f-string formats \<^verbatim>\<open>todo_id\<close>\<close>
  "str_int i = (if i < 0 then CHR ''-'' # str_nat (nat (- i)) else str_nat (nat i))"

definition not_found :: "int \<Rightarrow> exn" where
  \<comment> \<open>\<^verbatim>\<open>HTTPException(status_code=status.HTTP_404_NOT_FOUND,
      detail=f"Todo with id {todo_id} not found")\<close>\<close>
  "not_found i = HTTPException 404 (''Todo with id '' @ str_int i @ '' not found'')"

definition fetched :: "row option \<Rightarrow> exn + Todo" where
  \<comment> \<open>\<^verbatim>\<open>row_to_todo(cursor.fetchone())\<close>: subscripting \<^verbatim>\<open>None\<close> raises\<close>
  "fetched ro = (case ro of None \<Rightarrow> Inl TypeError | Some r \<Rightarrow> Inr (row_to_todo r))"

text \<open>
  Each handler is one \<^verbatim>\<open>with get_db_connection() as conn\<close> block. A statement that raises
  ends the block with that exception and with the working copy as it was then.
\<close>

definition get_all_todos :: "db \<Rightarrow> (exn + Todo list) \<times> db" where
  "get_all_todos d =
     closed_file (get_db_connection
       (\<lambda>conn. let rows = select_all_ordered conn in (Inr (map row_to_todo rows), conn)) d)"

definition get_todo :: "int \<Rightarrow> db \<Rightarrow> (exn + Todo) \<times> db" where
  "get_todo i d =
     closed_file (get_db_connection
       (\<lambda>conn. case select_by_id i conn of
                 Inl e \<Rightarrow> (Inl e, conn)
               | Inr None \<Rightarrow> (Inl (not_found i), conn)
               | Inr (Some r) \<Rightarrow> (Inr (row_to_todo r), conn)) d)"

definition create_todo :: "TodoCreate \<Rightarrow> db \<Rightarrow> (exn + Todo) \<times> db" where
  "create_todo todo d =
     closed_file (get_db_connection
       (\<lambda>conn. case insert_todo (create_content todo) (create_completed todo) conn of
                 Inl e \<Rightarrow> (Inl e, conn)
               | Inr (lastrowid, conn) \<Rightarrow>
                   (case select_by_id lastrowid conn of
                      Inl e \<Rightarrow> (Inl e, conn)
                    | Inr ro \<Rightarrow> (fetched ro, conn))) d)"

definition build_updates :: "TodoUpdate \<Rightarrow> assignment list" where
  \<comment> \<open>the \<^verbatim>\<open>updates\<close> and \<^verbatim>\<open>params\<close> lists: one assignment per field that is not \<^verbatim>\<open>None\<close>\<close>
  "build_updates todo_update =
     (case update_content todo_update of None \<Rightarrow> [] | Some c \<Rightarrow> [SetContent c]) @
     (case update_completed todo_update of None \<Rightarrow> [] | Some b \<Rightarrow> [SetCompleted b])"

definition update_todo :: "int \<Rightarrow> TodoUpdate \<Rightarrow> db \<Rightarrow> (exn + Todo) \<times> db" where
  "update_todo i todo_update d =
     closed_file (get_db_connection
       (\<lambda>conn. case select_by_id i conn of
                 Inl e \<Rightarrow> (Inl e, conn)
               | Inr None \<Rightarrow> (Inl (not_found i), conn)
               | Inr (Some _) \<Rightarrow>
                   let updates = build_updates todo_update
                   in case (if updates \<noteq> [] then update_where_id updates i conn
                            else Inr conn) of
                        Inl e \<Rightarrow> (Inl e, conn)
                      | Inr conn \<Rightarrow>
                          (case select_by_id i conn of
                             Inl e \<Rightarrow> (Inl e, conn)
                           | Inr ro \<Rightarrow> (fetched ro, conn))) d)"

definition delete_todo :: "int \<Rightarrow> db \<Rightarrow> (exn + unit) \<times> db" where
  "delete_todo i d =
     closed_file (get_db_connection
       (\<lambda>conn. case delete_where_id i conn of
                 Inl e \<Rightarrow> (Inl e, conn)
               | Inr (rowcount, conn) \<Rightarrow>
                   if rowcount = 0 then (Inl (not_found i), conn) else (Inr (), conn)) d)"

section \<open>The routes\<close>

text \<open>
  FastAPI validates the body against the handler's parameter model before it calls the
  handler, and turns the outcome into a response: the decorator's \<^verbatim>\<open>status_code\<close> on a
  normal return, the exception's own status for an \<^verbatim>\<open>HTTPException\<close>, 422 for a body
  that fails validation, 500 for anything else.
\<close>

definition post_todos :: "json_body \<Rightarrow> db \<Rightarrow> (exn + Todo) \<times> db" where
  "post_todos b d =
     (case parse_TodoCreate b of Inl e \<Rightarrow> (Inl e, d) | Inr todo \<Rightarrow> create_todo todo d)"

definition put_todo :: "int \<Rightarrow> json_body \<Rightarrow> db \<Rightarrow> (exn + Todo) \<times> db" where
  "put_todo i b d =
     (case parse_TodoUpdate b of Inl e \<Rightarrow> (Inl e, d) | Inr upd \<Rightarrow> update_todo i upd d)"

datatype payload =
    NoBody
  | JsonTodo Todo
  | JsonTodos "Todo list"
  | JsonDetail string
  | JsonInvalid string validation_kind

definition response :: "nat \<Rightarrow> ('a \<Rightarrow> payload) \<Rightarrow> exn + 'a \<Rightarrow> nat \<times> payload" where
  "response status_code ser r =
     (case r of
        Inr v \<Rightarrow> (status_code, ser v)
      | Inl (HTTPException st detail) \<Rightarrow> (st, JsonDetail detail)
      | Inl (RequestValidationError field kind) \<Rightarrow> (422, JsonInvalid field kind)
      | Inl _ \<Rightarrow> (500, JsonDetail ''Internal Server Error''))"

datatype request =
    List
  | Get int
  | Create json_body
  | Update int json_body
  | Delete int

fun serve :: "request \<Rightarrow> db \<Rightarrow> (nat \<times> payload) \<times> db" where
  "serve List d = (let (r, d') = get_all_todos d in (response 200 JsonTodos r, d'))"
| "serve (Get i) d = (let (r, d') = get_todo i d in (response 200 JsonTodo r, d'))"
| "serve (Create b) d = (let (r, d') = post_todos b d in (response 201 JsonTodo r, d'))"
| "serve (Update i b) d = (let (r, d') = put_todo i b d in (response 200 JsonTodo r, d'))"
| "serve (Delete i) d = (let (r, d') = delete_todo i d in (response 204 (\<lambda>_. NoBody) r, d'))"

definition serve_all :: "request list \<Rightarrow> db \<Rightarrow> db" where
  \<comment> \<open>the store after a sequence of requests, served one after the other\<close>
  "serve_all reqs d = fold (\<lambda>q d. snd (serve q d)) reqs d"

definition run :: "request list \<Rightarrow> db" where
  \<comment> \<open>the same on a fresh database, as \<^verbatim>\<open>startup_event\<close> leaves it\<close>
  "run reqs = serve_all reqs (init_database None)"

section \<open>Keys and the store invariant\<close>

definition ids :: "db \<Rightarrow> int set" where
  \<comment> \<open>the keys of the persisted rows, as Python reads them\<close>
  "ids d = (\<lambda>r. sint (col_todo_id r)) ` set (todos d)"

definition store_inv :: "db \<Rightarrow> bool" where
  \<comment> \<open>what the schema and the validators maintain: keys unique, positive and handed out by the
      counter, contents non-empty\<close>
  "store_inv d \<longleftrightarrow>
     distinct (map col_todo_id (todos d)) \<and>
     (\<forall>r\<in>set (todos d). col_content r \<noteq> [] \<and> 0 < sint (col_todo_id r) \<and>
                           sint (col_todo_id r) \<le> sint (sqlite_sequence d)) \<and>
     0 \<le> sint (sqlite_sequence d)"

definition inserted :: "string \<Rightarrow> bool \<Rightarrow> db \<Rightarrow> db" where
  \<comment> \<open>the store after a successful INSERT\<close>
  "inserted c b d =
     \<lparr>todos = todos d @ [\<lparr>col_todo_id = word_of_int (next_rowid d), col_content = c,
                          col_completed = of_bool b\<rparr>],
      sqlite_sequence = word_of_int (next_rowid d)\<rparr>"

definition updated :: "assignment list \<Rightarrow> int \<Rightarrow> db \<Rightarrow> db" where
  \<comment> \<open>the store after a successful UPDATE\<close>
  "updated us i d =
     d\<lparr>todos := map (\<lambda>r. if sint (col_todo_id r) = i then fold assign us r else r) (todos d)\<rparr>"

section \<open>Example stores and requests\<close>

definition two_todos :: db where
  \<comment> \<open>a store with two rows, for the examples\<close>
  "two_todos =
     \<lparr>todos = [\<lparr>col_todo_id = 1, col_content = ''buy milk'', col_completed = 0\<rparr>,
               \<lparr>col_todo_id = 2, col_content = ''walk dog'', col_completed = 1\<rparr>],
      sqlite_sequence = 2\<rparr>"

definition one_todo :: db where
  \<comment> \<open>\<open>two_todos\<close> after its first row was deleted\<close>
  "one_todo =
     \<lparr>todos = [\<lparr>col_todo_id = 2, col_content = ''walk dog'', col_completed = 1\<rparr>],
      sqlite_sequence = 2\<rparr>"

definition shuffled_todos :: db where
  \<comment> \<open>three rows stored out of key order\<close>
  "shuffled_todos =
     \<lparr>todos = [\<lparr>col_todo_id = 3, col_content = ''c'', col_completed = 0\<rparr>,
               \<lparr>col_todo_id = 1, col_content = ''a'', col_completed = 1\<rparr>,
               \<lparr>col_todo_id = 2, col_content = ''b'', col_completed = 0\<rparr>],
      sqlite_sequence = 3\<rparr>"

definition example_requests :: "request list" where
  \<comment> \<open>a session on a fresh database, with two requests that validation rejects\<close>
  "example_requests =
     [Create \<lparr>json_content = Some ''buy milk'', json_completed = None\<rparr>,
      Create \<lparr>json_content = Some ''walk dog'', json_completed = Some True\<rparr>,
      Delete 1,
      Create \<lparr>json_content = Some ''call mum'', json_completed = None\<rparr>,
      Update 2 \<lparr>json_content = Some ''walk the dog'', json_completed = None\<rparr>,
      Update 3 \<lparr>json_content = Some [], json_completed = Some True\<rparr>,
      Create \<lparr>json_content = Some [], json_completed = None\<rparr>,
      Delete 1,
      Get 2,
      List]"

definition insert_then_fail :: "db \<Rightarrow> (exn + unit) \<times> db" where
  \<comment> \<open>a block whose storage fails after its INSERT was executed\<close>
  "insert_then_fail conn =
     (case insert_todo ''half done'' False conn of
        Inl e \<Rightarrow> (Inl e, conn)
      | Inr (lastrowid, conn) \<Rightarrow> (Inl (OperationalError ''disk I/O error''), conn))"

section \<open>Keys and binding\<close>

lemma sint_rowid_range: "min_rowid \<le> sint (k :: rowid) \<and> sint k \<le> max_rowid"
  using sint_ge [of k] sint_lt [of k] by (simp add: min_rowid_def max_rowid_def)

lemma sint_word_of_int_rowid:
  "min_rowid \<le> i \<Longrightarrow> i \<le> max_rowid \<Longrightarrow> sint (word_of_int i :: rowid) = i"
  by (simp add: min_rowid_def max_rowid_def sint_sbintrunc' signed_take_bit_int_eq_self)

lemma word_of_int_sint_rowid: "word_of_int (sint k) = (k :: rowid)"
  by simp

lemma sint_rowid_eq_iff: "sint (a :: rowid) = sint b \<longleftrightarrow> a = b"
proof
  assume "sint a = sint b"
  then have "(word_of_int (sint a) :: rowid) = word_of_int (sint b)" by (rule arg_cong)
  then show "a = b" by (simp only: word_of_int_sint_rowid)
next
  assume "a = b"
  then show "sint a = sint b" by (rule arg_cong)
qed

lemma rowid_eq_word_of_int:
  "min_rowid \<le> i \<Longrightarrow> i \<le> max_rowid \<Longrightarrow> (k :: rowid) = word_of_int i \<longleftrightarrow> sint k = i"
  using sint_word_of_int_rowid [of i] sint_rowid_eq_iff [of k "word_of_int i"] by simp

lemma bind_int_in_range:
  "min_rowid \<le> i \<Longrightarrow> i \<le> max_rowid \<Longrightarrow> bind_int i = Inr (word_of_int i)"
  by (simp add: bind_int_def)

lemma bind_int_out_of_range:
  "\<not> (min_rowid \<le> i \<and> i \<le> max_rowid) \<Longrightarrow> bind_int i = Inl OverflowError"
  by (simp add: bind_int_def)

lemma bind_int_sint: "bind_int (sint k) = Inr k"
  using sint_rowid_range [of k] by (simp add: bind_int_def)

lemma select_by_id_in_range:
  "min_rowid \<le> i \<Longrightarrow> i \<le> max_rowid \<Longrightarrow>
   select_by_id i d = Inr (find (\<lambda>r. sint (col_todo_id r) = i) (todos d))"
  by (simp add: select_by_id_def bind_int_in_range rowid_eq_word_of_int)

lemma select_by_id_out_of_range:
  "\<not> (min_rowid \<le> i \<and> i \<le> max_rowid) \<Longrightarrow> select_by_id i d = Inl OverflowError"
  by (simp add: select_by_id_def bind_int_out_of_range)

lemma update_where_id_in_range:
  "min_rowid \<le> i \<Longrightarrow> i \<le> max_rowid \<Longrightarrow>
   update_where_id us i d =
     Inr (d\<lparr>todos := map (\<lambda>r. if sint (col_todo_id r) = i then fold assign us r else r)
                          (todos d)\<rparr>)"
  by (simp add: update_where_id_def bind_int_in_range rowid_eq_word_of_int)

lemma update_where_id_out_of_range:
  "\<not> (min_rowid \<le> i \<and> i \<le> max_rowid) \<Longrightarrow> update_where_id us i d = Inl OverflowError"
  by (simp add: update_where_id_def bind_int_out_of_range)

lemma delete_where_id_in_range:
  "min_rowid \<le> i \<Longrightarrow> i \<le> max_rowid \<Longrightarrow>
   delete_where_id i d =
     Inr (length (filter (\<lambda>r. sint (col_todo_id r) = i) (todos d)),
          d\<lparr>todos := filter (\<lambda>r. sint (col_todo_id r) \<noteq> i) (todos d)\<rparr>)"
  by (simp add: delete_where_id_def bind_int_in_range rowid_eq_word_of_int)

lemma delete_where_id_out_of_range:
  "\<not> (min_rowid \<le> i \<and> i \<le> max_rowid) \<Longrightarrow> delete_where_id i d = Inl OverflowError"
  by (simp add: delete_where_id_def bind_int_out_of_range)

lemma ids_in_range: "i \<in> ids d \<Longrightarrow> min_rowid \<le> i \<and> i \<le> max_rowid"
  using sint_rowid_range by (auto simp: ids_def)

section \<open>What each handler computes\<close>

text \<open>
  Leaving the \<^verbatim>\<open>with\<close> statement keeps the block's writes when the block returned and
  drops them when it raised.
\<close>

lemma closed_file_connection:
  "closed_file (get_db_connection block d) =
     (case fst (block d) of Inr v \<Rightarrow> (Inr v, snd (block d)) | Inl e \<Rightarrow> (Inl e, d))"
  by (simp add: closed_file_def get_db_connection_def connect_def commit_def rollback_def
      close_def Let_def split: prod.splits sum.splits)

lemma fold_max_ge_init: "(a::int) \<le> fold max xs a"
proof (induction xs arbitrary: a)
  case Nil
  show ?case by simp
next
  case (Cons x xs)
  have "a \<le> max x a" by simp
  also have "\<dots> \<le> fold max xs (max x a)" by (rule Cons.IH)
  finally show ?case by simp
qed

lemma fold_max_ge_elem: "x \<in> set xs \<Longrightarrow> (x::int) \<le> fold max xs a"
proof (induction xs arbitrary: a)
  case Nil
  then show ?case by simp
next
  case (Cons y ys)
  show ?case
  proof (cases "x = y")
    case True
    have "x \<le> max y a" using True by simp
    also have "\<dots> \<le> fold max ys (max y a)" by (rule fold_max_ge_init)
    finally show ?thesis by simp
  next
    case False
    with Cons.prems have "x \<in> set ys" by simp
    then show ?thesis using Cons.IH by simp
  qed
qed

lemma next_rowid_gt_seq: "sint (sqlite_sequence d) < next_rowid d"
  using fold_max_ge_init
    [of "sint (sqlite_sequence d)" "map (\<lambda>r. sint (col_todo_id r)) (todos d)"]
  by (simp add: next_rowid_def)

lemma next_rowid_gt_row: "r \<in> set (todos d) \<Longrightarrow> sint (col_todo_id r) < next_rowid d"
  using fold_max_ge_elem
    [of "sint (col_todo_id r)" "map (\<lambda>r. sint (col_todo_id r)) (todos d)"
        "sint (sqlite_sequence d)"]
  by (simp add: next_rowid_def)

lemma next_rowid_ge_min: "min_rowid \<le> next_rowid d"
  using next_rowid_gt_seq [of d] sint_rowid_range [of "sqlite_sequence d"] by simp

lemma next_rowid_fresh: "next_rowid d \<notin> ids d"
proof
  assume "next_rowid d \<in> ids d"
  then obtain r where "r \<in> set (todos d)" and "sint (col_todo_id r) = next_rowid d"
    by (auto simp: ids_def)
  then show False using next_rowid_gt_row [of r d] by simp
qed

lemma find_key_None:
  "find (\<lambda>r. sint (col_todo_id r) = i) (todos d) = None \<longleftrightarrow> i \<notin> ids d"
  by (auto simp: find_None_iff ids_def)

lemma find_distinct_key:
  "distinct (map col_todo_id xs) \<Longrightarrow> r \<in> set xs \<Longrightarrow>
   find (\<lambda>x. sint (col_todo_id x) = sint (col_todo_id r)) xs = Some r"
  by (induction xs) (auto simp: rev_image_eqI sint_rowid_eq_iff)

lemma find_key_Some:
  "find (\<lambda>r. sint (col_todo_id r) = i) (todos d) = Some r \<Longrightarrow>
   r \<in> set (todos d) \<and> sint (col_todo_id r) = i"
  by (auto simp: find_Some_iff)

lemma select_by_id_member:
  "distinct (map col_todo_id (todos d)) \<Longrightarrow> r \<in> set (todos d) \<Longrightarrow>
   select_by_id (sint (col_todo_id r)) d = Inr (Some r)"
  using sint_rowid_range [of "col_todo_id r"]
  by (simp add: select_by_id_in_range find_distinct_key)

lemma get_all_todos_eq:
  "get_all_todos d =
     (Inr (map row_to_todo (sort_key (\<lambda>r. sint (col_todo_id r)) (todos d))), d)"
  by (simp add: get_all_todos_def closed_file_connection select_all_ordered_def)

lemma get_todo_in_range:
  "min_rowid \<le> i \<Longrightarrow> i \<le> max_rowid \<Longrightarrow>
   get_todo i d =
     (case find (\<lambda>r. sint (col_todo_id r) = i) (todos d) of
        None \<Rightarrow> (Inl (not_found i), d)
      | Some r \<Rightarrow> (Inr (row_to_todo r), d))"
  by (simp add: get_todo_def closed_file_connection select_by_id_in_range split: option.splits)

lemma get_todo_out_of_range:
  "\<not> (min_rowid \<le> i \<and> i \<le> max_rowid) \<Longrightarrow> get_todo i d = (Inl OverflowError, d)"
  by (simp add: get_todo_def closed_file_connection select_by_id_out_of_range)

lemma find_snoc:
  "find P xs = None \<Longrightarrow> find P (xs @ [y]) = (if P y then Some y else None)"
  by (induction xs) (auto split: if_splits)

lemma insert_todo_eq:
  "insert_todo c b d =
     (if next_rowid d \<le> max_rowid then Inr (next_rowid d, inserted c b d)
      else Inl (OperationalError ''database or disk is full''))"
  by (simp add: insert_todo_def inserted_def Let_def)

lemma sint_next_rowid:
  "next_rowid d \<le> max_rowid \<Longrightarrow> sint (word_of_int (next_rowid d) :: rowid) = next_rowid d"
  using next_rowid_ge_min [of d] by (simp add: sint_word_of_int_rowid)

lemma select_inserted:
  assumes "next_rowid d \<le> max_rowid"
  shows "select_by_id (next_rowid d) (inserted c b d) =
     Inr (Some \<lparr>col_todo_id = word_of_int (next_rowid d), col_content = c,
                col_completed = of_bool b\<rparr>)"
proof -
  have "find (\<lambda>r. sint (col_todo_id r) = next_rowid d) (todos d) = None"
    using next_rowid_fresh [of d] by (simp add: find_key_None)
  then show ?thesis
    using assms next_rowid_ge_min [of d]
    by (simp add: select_by_id_in_range inserted_def find_snoc sint_next_rowid)
qed

lemma create_todo_eq:
  "create_todo t d =
     (if next_rowid d \<le> max_rowid
      then (Inr \<lparr>todo_id = next_rowid d, content = create_content t,
                 completed = create_completed t\<rparr>,
            inserted (create_content t) (create_completed t) d)
      else (Inl (OperationalError ''database or disk is full''), d))"
proof (cases "next_rowid d \<le> max_rowid")
  case True
  then show ?thesis
    using select_inserted [OF True, of "create_content t" "create_completed t"]
    by (simp add: create_todo_def closed_file_connection insert_todo_eq fetched_def
        row_to_todo_def sint_next_rowid)
next
  case False
  then show ?thesis
    by (simp add: create_todo_def closed_file_connection insert_todo_eq)
qed

lemma delete_todo_in_range:
  assumes "min_rowid \<le> i" and "i \<le> max_rowid"
  shows "delete_todo i d =
     (if i \<in> ids d
      then (Inr (), d\<lparr>todos := filter (\<lambda>r. sint (col_todo_id r) \<noteq> i) (todos d)\<rparr>)
      else (Inl (not_found i), d))"
proof -
  have "filter (\<lambda>r. sint (col_todo_id r) = i) (todos d) = [] \<longleftrightarrow> i \<notin> ids d"
    by (auto simp: ids_def filter_empty_conv)
  then show ?thesis
    using assms by (simp add: delete_todo_def closed_file_connection delete_where_id_in_range)
qed

lemma delete_todo_out_of_range:
  "\<not> (min_rowid \<le> i \<and> i \<le> max_rowid) \<Longrightarrow> delete_todo i d = (Inl OverflowError, d)"
  by (simp add: delete_todo_def closed_file_connection delete_where_id_out_of_range)

lemma assign_id [simp]: "col_todo_id (assign a r) = col_todo_id r"
  by (cases a) simp_all

lemma fold_assign_id [simp]: "col_todo_id (fold assign us r) = col_todo_id r"
  by (induction us arbitrary: r) simp_all

lemma find_map_key:
  "(\<And>x. f (g x) = f x) \<Longrightarrow>
   find (\<lambda>x. f x = i) (map (\<lambda>x. if f x = k then g x else x) xs) =
   map_option (\<lambda>x. if f x = k then g x else x) (find (\<lambda>x. f x = i) xs)"
  by (induction xs) auto

lemma update_where_id_updated:
  "min_rowid \<le> i \<Longrightarrow> i \<le> max_rowid \<Longrightarrow> update_where_id us i d = Inr (updated us i d)"
  by (simp add: update_where_id_in_range updated_def)

lemma find_updated:
  "find (\<lambda>r. sint (col_todo_id r) = j) (todos (updated us i d)) =
     map_option (\<lambda>r. if sint (col_todo_id r) = i then fold assign us r else r)
       (find (\<lambda>r. sint (col_todo_id r) = j) (todos d))"
  using find_map_key [of "\<lambda>r. sint (col_todo_id r)" "fold assign us" j i "todos d"]
  by (simp add: updated_def)

lemma update_todo_missing:
  assumes "select_by_id i d = Inr None"
  shows "update_todo i u d = (Inl (not_found i), d)"
  using assms by (simp add: update_todo_def closed_file_connection)

lemma update_todo_no_fields:
  assumes "select_by_id i d = Inr (Some r)" and "build_updates u = []"
  shows "update_todo i u d = (Inr (row_to_todo r), d)"
  using assms by (simp add: update_todo_def closed_file_connection fetched_def)

lemma update_todo_fields:
  assumes "select_by_id i d = Inr (Some r)" and "build_updates u \<noteq> []"
    and "update_where_id (build_updates u) i d = Inr d'"
    and "select_by_id i d' = Inr (Some r')"
  shows "update_todo i u d = (Inr (row_to_todo r'), d')"
  using assms by (simp add: update_todo_def closed_file_connection fetched_def)

lemma update_todo_out_of_range:
  "\<not> (min_rowid \<le> i \<and> i \<le> max_rowid) \<Longrightarrow> update_todo i u d = (Inl OverflowError, d)"
  by (simp add: update_todo_def closed_file_connection select_by_id_out_of_range)

lemma update_todo_absent:
  assumes "min_rowid \<le> i" and "i \<le> max_rowid"
    and "find (\<lambda>r. sint (col_todo_id r) = i) (todos d) = None"
  shows "update_todo i u d = (Inl (not_found i), d)"
proof -
  have "select_by_id i d = Inr None"
    using assms by (simp add: select_by_id_in_range)
  then show ?thesis by (rule update_todo_missing)
qed

lemma update_todo_present:
  assumes "min_rowid \<le> i" and "i \<le> max_rowid"
    and "find (\<lambda>r. sint (col_todo_id r) = i) (todos d) = Some r"
  shows "update_todo i u d =
          (Inr (row_to_todo (fold assign (build_updates u) r)),
           if build_updates u \<noteq> [] then updated (build_updates u) i d else d)"
proof -
  have key: "sint (col_todo_id r) = i" using find_key_Some [OF assms(3)] by (rule conjunct2)
  have sel: "select_by_id i d = Inr (Some r)"
    using assms by (simp add: select_by_id_in_range)
  show ?thesis
  proof (cases "build_updates u = []")
    case True
    have "update_todo i u d = (Inr (row_to_todo r), d)"
      using sel True by (rule update_todo_no_fields)
    then show ?thesis using True by simp
  next
    case False
    have upd: "update_where_id (build_updates u) i d = Inr (updated (build_updates u) i d)"
      using assms(1,2) by (rule update_where_id_updated)
    have "find (\<lambda>r. sint (col_todo_id r) = i) (todos (updated (build_updates u) i d)) =
        Some (fold assign (build_updates u) r)"
      using assms(3) key by (simp add: find_updated)
    then have sel': "select_by_id i (updated (build_updates u) i d) =
        Inr (Some (fold assign (build_updates u) r))"
      using assms(1,2) by (simp add: select_by_id_in_range)
    have "update_todo i u d =
        (Inr (row_to_todo (fold assign (build_updates u) r)), updated (build_updates u) i d)"
      using sel False upd sel' by (rule update_todo_fields)
    then show ?thesis using False by simp
  qed
qed

subsection \<open>The decimal numeral in the 404 message determines the id\<close>

lemma digits_as_map: "''0123456789'' = map (\<lambda>k. char_of (48 + k)) [0..<10::nat]"
  by code_simp

lemma digit_char_code: "n < 10 \<Longrightarrow> of_char (''0123456789'' ! n) = (48 + n :: nat)"
proof -
  assume n: "n < 10"
  then have "''0123456789'' ! n = char_of (48 + n)"
    by (simp only: digits_as_map) simp
  moreover have "of_char (char_of (48 + n) :: char) = (48 + n) mod 256"
    by (simp only: of_char_of)
  ultimately show ?thesis using n by simp
qed

lemma digit_char_inj:
  assumes "m < 10" and "n < 10" and "''0123456789'' ! m = ''0123456789'' ! n"
  shows "m = n"
proof -
  have "(of_char (''0123456789'' ! m) :: nat) = of_char (''0123456789'' ! n)"
    by (rule arg_cong [OF assms(3)])
  then have "(48 + m :: nat) = 48 + n"
    by (simp only: digit_char_code [OF assms(1)] digit_char_code [OF assms(2)])
  then show ?thesis by simp
qed

lemma str_nat_small: "n < 10 \<Longrightarrow> str_nat n = [''0123456789'' ! n]"
  by (subst str_nat.simps) simp

lemma str_nat_large:
  "\<not> n < 10 \<Longrightarrow> str_nat n = str_nat (n div 10) @ [''0123456789'' ! (n mod 10)]"
  by (subst str_nat.simps) simp

lemma str_nat_nonempty: "str_nat n \<noteq> []"
proof (cases "n < 10")
  case True
  show ?thesis by (simp only: str_nat_small [OF True]) simp
next
  case False
  show ?thesis by (simp only: str_nat_large [OF False]) simp
qed

lemma singleton_eq_snoc: "[a] = xs @ [b] \<Longrightarrow> xs = []"
proof -
  assume "[a] = xs @ [b]"
  then have "length [a] = length (xs @ [b])" by (rule arg_cong)
  then show ?thesis by simp
qed

lemma str_nat_inj: "str_nat m = str_nat n \<Longrightarrow> m = n"
proof (induction m arbitrary: n rule: str_nat.induct)
  case (1 m)
  show ?case
  proof (cases "m < 10")
    case True
    note m = this
    show ?thesis
    proof (cases "n < 10")
      case True
      from "1.prems" have "''0123456789'' ! m = ''0123456789'' ! n"
        by (simp only: str_nat_small [OF m] str_nat_small [OF True] list.inject)
      then show ?thesis by (rule digit_char_inj [OF m True])
    next
      case False
      from "1.prems" have "[''0123456789'' ! m] = str_nat (n div 10) @ [''0123456789'' ! (n mod 10)]"
        by (simp only: str_nat_small [OF m] str_nat_large [OF False])
      then have "str_nat (n div 10) = []" by (rule singleton_eq_snoc)
      then show ?thesis using str_nat_nonempty by blast
    qed
  next
    case False
    note m = this
    show ?thesis
    proof (cases "n < 10")
      case True
      from "1.prems" have "str_nat (m div 10) @ [''0123456789'' ! (m mod 10)] = [''0123456789'' ! n]"
        by (simp only: str_nat_small [OF True] str_nat_large [OF m])
      then have "str_nat (m div 10) = []" by (rule singleton_eq_snoc [OF sym])
      then show ?thesis using str_nat_nonempty by blast
    next
      case False
      from "1.prems" have "str_nat (m div 10) @ [''0123456789'' ! (m mod 10)] =
          str_nat (n div 10) @ [''0123456789'' ! (n mod 10)]"
        by (simp only: str_nat_large [OF False] str_nat_large [OF m])
      then have eq: "str_nat (m div 10) = str_nat (n div 10)"
        and dg: "''0123456789'' ! (m mod 10) = ''0123456789'' ! (n mod 10)"
        by (simp_all only: append1_eq_conv)
      from eq have "m div 10 = n div 10" using "1.IH" [OF m] by blast
      moreover from dg have "m mod 10 = n mod 10"
        by (rule digit_char_inj [rotated 2]) simp_all
      ultimately show ?thesis by (metis div_mult_mod_eq)
    qed
  qed
qed

lemma not_in_insert_last: "x \<noteq> c \<Longrightarrow> c \<notin> A \<Longrightarrow> c \<notin> A \<union> {x}"
  by auto

lemma digit_not_minus: "k < 10 \<Longrightarrow> ''0123456789'' ! k \<noteq> CHR ''-''"
proof
  assume k: "k < 10" and "''0123456789'' ! k = CHR ''-''"
  then have "of_char (''0123456789'' ! k) = (of_char (CHR ''-'') :: nat)" by (simp only:)
  then have "48 + k = (of_char (CHR ''-'') :: nat)" by (simp only: digit_char_code [OF k])
  then show False by simp
qed

lemma str_nat_no_minus: "CHR ''-'' \<notin> set (str_nat n)"
proof (induction n rule: str_nat.induct)
  case (1 n)
  show ?case
  proof (cases "n < 10")
    case True
    have "set (str_nat n) = {''0123456789'' ! n}" by (simp only: str_nat_small [OF True]) simp
    then show ?thesis using digit_not_minus [OF True] by (simp only: singleton_iff) (rule not_sym)
  next
    case False
    have "n mod 10 < 10" by simp
    from digit_not_minus [OF this] "1.IH" [OF False]
    have "CHR ''-'' \<notin> set (str_nat (n div 10)) \<union> {''0123456789'' ! (n mod 10)}"
      by (rule not_in_insert_last)
    moreover have "set (str_nat n) = set (str_nat (n div 10)) \<union> {''0123456789'' ! (n mod 10)}"
      by (simp only: str_nat_large [OF False]) simp
    ultimately show ?thesis by (simp only: not_False_eq_True)
  qed
qed

lemma str_nat_hd: "hd (str_nat n) \<noteq> CHR ''-''"
proof (cases "str_nat n")
  case Nil
  then show ?thesis using str_nat_nonempty by blast
next
  case (Cons c cs)
  then have "c \<in> set (str_nat n)" by simp
  then have "c \<noteq> CHR ''-''" using str_nat_no_minus [of n] by blast
  then show ?thesis using Cons by simp
qed

lemma str_int_inj: "str_int i = str_int j \<Longrightarrow> i = j"
proof -
  assume eq: "str_int i = str_int j"
  show ?thesis
  proof (cases "i < 0")
    case True
    note i = this
    show ?thesis
    proof (cases "j < 0")
      case True
      with i eq have "str_nat (nat (- i)) = str_nat (nat (- j))" by (simp add: str_int_def)
      then have "nat (- i) = nat (- j)" by (rule str_nat_inj)
      with i True show ?thesis by simp
    next
      case False
      with i eq have "CHR ''-'' # str_nat (nat (- i)) = str_nat (nat j)" by (simp add: str_int_def)
      then have "hd (str_nat (nat j)) = CHR ''-''" by (metis list.sel(1))
      then show ?thesis using str_nat_hd by blast
    qed
  next
    case False
    note i = this
    show ?thesis
    proof (cases "j < 0")
      case True
      with i eq have "str_nat (nat i) = CHR ''-'' # str_nat (nat (- j))" by (simp add: str_int_def)
      then have "hd (str_nat (nat i)) = CHR ''-''" by (metis list.sel(1))
      then show ?thesis using str_nat_hd by blast
    next
      case False
      with i eq have "str_nat (nat i) = str_nat (nat j)" by (simp add: str_int_def)
      then have "nat i = nat j" by (rule str_nat_inj)
      with i False show ?thesis by simp
    qed
  qed
qed

lemma todo_id_row_to_todo:
  "map todo_id (map row_to_todo xs) = map (\<lambda>r. sint (col_todo_id r)) xs"
  by (simp add: row_to_todo_def)

subsection \<open>What each route does to the store\<close>

lemma updated_absent: "i \<notin> ids d \<Longrightarrow> updated us i d = d"
proof -
  assume "i \<notin> ids d"
  then have "map (\<lambda>r. if sint (col_todo_id r) = i then fold assign us r else r) (todos d) =
      todos d"
    by (intro map_idI) (auto simp: ids_def)
  then show ?thesis by (simp add: updated_def)
qed

lemma updated_no_fields: "updated [] i d = d"
proof -
  have "map (\<lambda>r. if sint (col_todo_id r) = i then fold assign [] r else r) (todos d) = todos d"
    by (intro map_idI) simp
  then show ?thesis by (simp add: updated_def)
qed

lemma out_of_range_absent: "\<not> (min_rowid \<le> i \<and> i \<le> max_rowid) \<Longrightarrow> i \<notin> ids d"
  using ids_in_range [of i d] by blast

lemma update_todo_store: "snd (update_todo i u d) = updated (build_updates u) i d"
proof (cases "min_rowid \<le> i \<and> i \<le> max_rowid")
  case False
  then show ?thesis
    by (simp add: update_todo_out_of_range updated_absent out_of_range_absent)
next
  case True
  then have lo: "min_rowid \<le> i" and hi: "i \<le> max_rowid" by simp_all
  show ?thesis
  proof (cases "find (\<lambda>r. sint (col_todo_id r) = i) (todos d)")
    case None
    then have "i \<notin> ids d" by (simp add: find_key_None)
    then show ?thesis
      using update_todo_absent [OF lo hi None] by (simp add: updated_absent)
  next
    case (Some r)
    show ?thesis
      using update_todo_present [OF lo hi Some] by (simp add: updated_no_fields)
  qed
qed

lemma delete_todo_store:
  "snd (delete_todo i d) = d\<lparr>todos := filter (\<lambda>r. sint (col_todo_id r) \<noteq> i) (todos d)\<rparr>"
proof -
  have same: "filter (\<lambda>r. sint (col_todo_id r) \<noteq> i) (todos d) = todos d" if "i \<notin> ids d"
    using that by (auto simp: ids_def filter_id_conv)
  show ?thesis
  proof (cases "min_rowid \<le> i \<and> i \<le> max_rowid")
    case False
    then show ?thesis
      by (simp add: delete_todo_out_of_range same out_of_range_absent)
  next
    case True
    then show ?thesis
      by (cases "i \<in> ids d") (simp_all add: delete_todo_in_range same)
  qed
qed

lemma post_todos_store:
  "snd (post_todos b d) =
     (case parse_TodoCreate b of
        Inl e \<Rightarrow> d
      | Inr t \<Rightarrow>
          if next_rowid d \<le> max_rowid
          then inserted (create_content t) (create_completed t) d else d)"
  by (simp add: post_todos_def create_todo_eq split: sum.splits)

lemma put_todo_store:
  "snd (put_todo i b d) =
     (case parse_TodoUpdate b of
        Inl e \<Rightarrow> d
      | Inr u \<Rightarrow> updated (build_updates u) i d)"
  by (simp add: put_todo_def update_todo_store split: sum.splits)

lemma get_todo_store: "snd (get_todo i d) = d"
  by (cases "min_rowid \<le> i \<and> i \<le> max_rowid")
     (simp_all add: get_todo_in_range get_todo_out_of_range split: option.splits)

lemma serve_store:
  "snd (serve q d) =
     (case q of
        List \<Rightarrow> d
      | Get i \<Rightarrow> d
      | Create b \<Rightarrow> snd (post_todos b d)
      | Update i b \<Rightarrow> snd (put_todo i b d)
      | Delete i \<Rightarrow> snd (delete_todo i d))"
  by (cases q) (simp_all add: case_prod_beta get_all_todos_eq get_todo_store)

lemma failed_request_keeps_store: "400 \<le> fst (fst (serve q d)) \<Longrightarrow> snd (serve q d) = d"
proof (cases q)
  case List
  then show ?thesis by (simp add: get_all_todos_eq)
next
  case (Get i)
  then show ?thesis by (simp add: serve_store del: serve.simps)
next
  case (Create b)
  assume "400 \<le> fst (fst (serve q d))"
  with Create show ?thesis
    by (cases "parse_TodoCreate b"; cases "next_rowid d \<le> max_rowid")
       (simp_all add: post_todos_def create_todo_eq response_def)
next
  case (Update i b)
  assume bad: "400 \<le> fst (fst (serve q d))"
  show ?thesis
  proof (cases "parse_TodoUpdate b")
    case (Inl e)
    with Update show ?thesis by (simp add: put_todo_def)
  next
    case (Inr u)
    show ?thesis
    proof (cases "min_rowid \<le> i \<and> i \<le> max_rowid")
      case False
      with Update Inr show ?thesis by (simp add: put_todo_def update_todo_out_of_range)
    next
      case True
      then have lo: "min_rowid \<le> i" and hi: "i \<le> max_rowid" by simp_all
      show ?thesis
      proof (cases "find (\<lambda>r. sint (col_todo_id r) = i) (todos d)")
        case None
        with Update Inr show ?thesis
          by (simp add: put_todo_def update_todo_absent [OF lo hi None])
      next
        case (Some r)
        with Update Inr bad show ?thesis
          by (simp add: put_todo_def update_todo_present [OF lo hi Some] response_def)
      qed
    qed
  qed
next
  case (Delete i)
  assume bad: "400 \<le> fst (fst (serve q d))"
  show ?thesis
  proof (cases "min_rowid \<le> i \<and> i \<le> max_rowid")
    case False
    with Delete show ?thesis by (simp add: delete_todo_out_of_range)
  next
    case True
    with Delete bad show ?thesis
      by (cases "i \<in> ids d") (simp_all add: delete_todo_in_range response_def)
  qed
qed

subsection \<open>The store invariant\<close>

lemma fold_assign_content:
  "(\<forall>c. SetContent c \<in> set us \<longrightarrow> c \<noteq> []) \<Longrightarrow> col_content r \<noteq> [] \<Longrightarrow>
   col_content (fold assign us r) \<noteq> []"
proof (induction us arbitrary: r)
  case Nil
  then show ?case by simp
next
  case (Cons a us)
  have "col_content (assign a r) \<noteq> []"
    using Cons.prems by (cases a) auto
  moreover have "\<forall>c. SetContent c \<in> set us \<longrightarrow> c \<noteq> []"
    using Cons.prems(1) by simp
  ultimately show ?case using Cons.IH by simp
qed

lemma parse_TodoCreate_content: "parse_TodoCreate b = Inr t \<Longrightarrow> create_content t \<noteq> []"
  by (auto simp: parse_TodoCreate_def split: option.splits if_splits)

lemma parse_TodoUpdate_content:
  "parse_TodoUpdate b = Inr u \<Longrightarrow> \<forall>c. SetContent c \<in> set (build_updates u) \<longrightarrow> c \<noteq> []"
  by (auto simp: parse_TodoUpdate_def build_updates_def split: option.splits if_splits)

lemma updated_rows:
  "r' \<in> set (todos (updated us i d)) \<Longrightarrow>
   \<exists>r\<in>set (todos d). r' = (if sint (col_todo_id r) = i then fold assign us r else r)"
  by (auto simp: updated_def)

lemma updated_keys: "map col_todo_id (todos (updated us i d)) = map col_todo_id (todos d)"
  by (simp add: updated_def comp_def if_distrib cong: if_cong)

lemma updated_sequence: "sqlite_sequence (updated us i d) = sqlite_sequence d"
  by (simp add: updated_def)

lemma put_todo_contents:
  assumes "\<forall>r\<in>set (todos d). col_content r \<noteq> []"
  shows "\<forall>r\<in>set (todos (snd (put_todo i b d))). col_content r \<noteq> []"
proof (cases "parse_TodoUpdate b")
  case (Inl e)
  then show ?thesis using assms by (simp add: put_todo_store)
next
  case (Inr u)
  have ok: "\<forall>c. SetContent c \<in> set (build_updates u) \<longrightarrow> c \<noteq> []"
    using Inr by (rule parse_TodoUpdate_content)
  have "col_content r' \<noteq> []"
    if "r' \<in> set (todos (updated (build_updates u) i d))" for r'
  proof -
    from updated_rows [OF that] obtain r where r: "r \<in> set (todos d)"
      and r': "r' = (if sint (col_todo_id r) = i then fold assign (build_updates u) r else r)"
      by blast
    from assms r have "col_content r \<noteq> []" by simp
    with r' fold_assign_content [OF ok] show ?thesis by simp
  qed
  then show ?thesis using Inr by (simp add: put_todo_store)
qed


lemma store_inv_empty: "store_inv empty_db"
  by (simp add: store_inv_def empty_db_def)

lemma store_inv_inserted:
  assumes "store_inv d" and "c \<noteq> []" and "next_rowid d \<le> max_rowid"
  shows "store_inv (inserted c b d)"
proof -
  let ?k = "word_of_int (next_rowid d) :: rowid"
  have sk: "sint ?k = next_rowid d" using assms(3) by (rule sint_next_rowid)
  have fresh: "?k \<notin> col_todo_id ` set (todos d)"
  proof
    assume "?k \<in> col_todo_id ` set (todos d)"
    then obtain r where r: "r \<in> set (todos d)" and "col_todo_id r = ?k" by auto
    then have "sint (col_todo_id r) = next_rowid d" using sk by simp
    then show False using next_rowid_gt_row [OF r] by simp
  qed
  have seq: "sint (sqlite_sequence d) < next_rowid d" by (rule next_rowid_gt_seq)
  have rows: "\<forall>r\<in>set (todos d). sint (col_todo_id r) \<le> next_rowid d"
    using next_rowid_gt_row [of _ d] by (auto intro: less_imp_le)
  from assms(1) have old: "distinct (map col_todo_id (todos d))"
    "\<forall>r\<in>set (todos d). col_content r \<noteq> [] \<and> 0 < sint (col_todo_id r)"
    "0 \<le> sint (sqlite_sequence d)"
    by (auto simp: store_inv_def)
  show ?thesis
    unfolding store_inv_def inserted_def
    using old fresh seq rows assms(2) by (simp add: sk)
qed

lemma store_inv_updated:
  assumes "store_inv d" and "\<forall>c. SetContent c \<in> set us \<longrightarrow> c \<noteq> []"
  shows "store_inv (updated us i d)"
proof -
  have rows: "col_content r' \<noteq> [] \<and> 0 < sint (col_todo_id r') \<and>
      sint (col_todo_id r') \<le> sint (sqlite_sequence d)"
    if "r' \<in> set (todos (updated us i d))" for r'
  proof -
    from updated_rows [OF that] obtain r where r: "r \<in> set (todos d)"
      and r': "r' = (if sint (col_todo_id r) = i then fold assign us r else r)"
      by blast
    from assms(1) r have old: "col_content r \<noteq> [] \<and> 0 < sint (col_todo_id r) \<and>
        sint (col_todo_id r) \<le> sint (sqlite_sequence d)"
      by (simp add: store_inv_def)
    then have "col_content (fold assign us r) \<noteq> []"
      using fold_assign_content [OF assms(2)] by simp
    with old r' show ?thesis by simp
  qed
  from assms(1) have "distinct (map col_todo_id (todos d))" and "0 \<le> sint (sqlite_sequence d)"
    by (simp_all add: store_inv_def)
  with rows show ?thesis
    unfolding store_inv_def updated_keys updated_sequence by blast
qed

lemma store_inv_deleted:
  "store_inv d \<Longrightarrow>
   store_inv (d\<lparr>todos := filter (\<lambda>r. sint (col_todo_id r) \<noteq> i) (todos d)\<rparr>)"
  by (simp add: store_inv_def distinct_map_filter)

lemma store_inv_serve: "store_inv d \<Longrightarrow> store_inv (snd (serve q d))"
proof (cases q)
  case (Create b)
  assume "store_inv d"
  then show ?thesis
    unfolding serve_store Create request.case post_todos_store
    by (auto split: sum.splits intro: store_inv_inserted dest: parse_TodoCreate_content)
next
  case (Update i b)
  assume "store_inv d"
  then show ?thesis
    unfolding serve_store Update request.case put_todo_store
    by (auto split: sum.splits intro: store_inv_updated dest: parse_TodoUpdate_content)
next
  case (Delete i)
  assume "store_inv d"
  then show ?thesis
    unfolding serve_store Delete request.case delete_todo_store
    by (rule store_inv_deleted)
qed (simp_all add: serve_store del: serve.simps)

lemma store_inv_serve_all: "store_inv d \<Longrightarrow> store_inv (serve_all reqs d)"
proof (induction reqs arbitrary: d)
  case Nil
  then show ?case by (simp add: serve_all_def)
next
  case (Cons q reqs)
  from Cons.prems have "store_inv (snd (serve q d))" by (rule store_inv_serve)
  then have "store_inv (serve_all reqs (snd (serve q d)))" by (rule Cons.IH)
  then show ?case by (simp add: serve_all_def)
qed

lemma store_inv_run: "store_inv (run reqs)"
  unfolding run_def init_database_def
  by (simp add: store_inv_serve_all store_inv_empty)

lemma serve_sequence_mono:
  "sint (sqlite_sequence d) \<le> sint (sqlite_sequence (snd (serve q d)))"
proof (cases q)
  case (Create b)
  have "next_rowid d \<le> max_rowid \<Longrightarrow>
      sint (sqlite_sequence d) \<le> sint (word_of_int (next_rowid d) :: rowid)"
    using next_rowid_gt_seq [of d] by (simp add: sint_next_rowid)
  then show ?thesis
    unfolding serve_store Create request.case post_todos_store
    by (simp add: inserted_def split: sum.splits)
next
  case (Update i b)
  show ?thesis
    unfolding serve_store Update request.case put_todo_store
    by (simp add: updated_sequence split: sum.splits)
next
  case (Delete i)
  show ?thesis
    unfolding serve_store Delete request.case delete_todo_store
    by simp
qed (simp_all add: serve_store del: serve.simps)

lemma post_todos_created:
  assumes "post_todos b d = (Inr t, d')"
  shows "todos d' = todos d @ [\<lparr>col_todo_id = word_of_int (todo_id t), col_content = content t,
                                col_completed = of_bool (completed t)\<rparr>] \<and>
         sint (sqlite_sequence d) < todo_id t \<and> sint (sqlite_sequence d') = todo_id t"
proof -
  from assms obtain c where c: "parse_TodoCreate b = Inr c"
    by (cases "parse_TodoCreate b") (auto simp: post_todos_def)
  from assms c have room: "next_rowid d \<le> max_rowid"
    by (cases "next_rowid d \<le> max_rowid") (simp_all add: post_todos_def create_todo_eq)
  with assms c have t: "t = \<lparr>todo_id = next_rowid d, content = create_content c,
                           completed = create_completed c\<rparr>"
    and d': "d' = inserted (create_content c) (create_completed c) d"
    by (simp_all add: post_todos_def create_todo_eq)
  show ?thesis
    using next_rowid_gt_seq [of d] sint_next_rowid [OF room] by (simp add: t d' inserted_def)
qed

lemma run_example_requests:
  "run example_requests =
     \<lparr>todos = [\<lparr>col_todo_id = 2, col_content = ''walk the dog'', col_completed = 1\<rparr>,
               \<lparr>col_todo_id = 3, col_content = ''call mum'', col_completed = 0\<rparr>],
      sqlite_sequence = 3\<rparr>"
  by (simp add: example_requests_def run_def serve_all_def init_database_def empty_db_def
      serve_store post_todos_store put_todo_store delete_todo_store parse_TodoCreate_def
      parse_TodoUpdate_def inserted_def next_rowid_def updated_def max_rowid_def
      build_updates_def del: serve.simps)






section \<open>The claims\<close>





text \<open>
  C3. For every store, listing succeeds with status 200 and leaves the store as it was; the
  list holds exactly the persisted rows (as a multiset), in ascending order of
  \<^verbatim>\<open>todo_id\<close>, which is the storage order whenever that is already ascending. On the empty
  store the result is the empty list, not an error.
\<close>

theorem list_sorted_by_id:
  "(\<exists>ts. get_all_todos d = (Inr ts, d) \<and>
         serve List d = ((200, JsonTodos ts), d) \<and>
         sorted (map todo_id ts) \<and>
         mset ts = mset (map row_to_todo (todos d)) \<and>
         (sorted (map (\<lambda>r. sint (col_todo_id r)) (todos d)) \<longrightarrow>
            ts = map row_to_todo (todos d))) \<and>
   get_all_todos empty_db = (Inr [], empty_db) \<and>
   serve List empty_db = ((200, JsonTodos []), empty_db)"
proof -
  let ?ts = "map row_to_todo (sort_key (\<lambda>r. sint (col_todo_id r)) (todos d))"
  have "sorted (map (\<lambda>r. sint (col_todo_id r))
          (sort_key (\<lambda>r. sint (col_todo_id r)) (todos d)))"
    by (rule sorted_sort_key)
  then have srt: "sorted (map todo_id ?ts)"
    by (simp only: todo_id_row_to_todo)
  have ms: "mset ?ts = mset (map row_to_todo (todos d))"
    by simp
  have ins: "sorted (map (\<lambda>r. sint (col_todo_id r)) (todos d)) \<longrightarrow>
      ?ts = map row_to_todo (todos d)"
    by (simp add: sort_key_id_if_sorted)
  have lst: "serve List d = ((200, JsonTodos ?ts), d)"
    by (simp add: get_all_todos_eq response_def)
  have empty: "get_all_todos empty_db = (Inr [], empty_db)"
    by (simp add: get_all_todos_eq empty_db_def)
  then have "serve List empty_db = ((200, JsonTodos []), empty_db)"
    by (simp add: response_def)
  with empty srt ms ins lst show ?thesis
    using get_all_todos_eq [of d] by blast
qed

theorem list_sorted_by_id_witness:
  "get_all_todos shuffled_todos =
     (Inr [\<lparr>todo_id = 1, content = ''a'', completed = True\<rparr>,
           \<lparr>todo_id = 2, content = ''b'', completed = False\<rparr>,
           \<lparr>todo_id = 3, content = ''c'', completed = False\<rparr>], shuffled_todos) \<and>
   sorted (map (\<lambda>r. sint (col_todo_id r)) (todos two_todos)) \<and>
   get_all_todos two_todos =
     (Inr [\<lparr>todo_id = 1, content = ''buy milk'', completed = False\<rparr>,
           \<lparr>todo_id = 2, content = ''walk dog'', completed = True\<rparr>], two_todos) \<and>
   fst (get_all_todos two_todos) = Inr (map row_to_todo (todos two_todos))"
proof -
  have a: "get_all_todos shuffled_todos =
     (Inr [\<lparr>todo_id = 1, content = ''a'', completed = True\<rparr>,
           \<lparr>todo_id = 2, content = ''b'', completed = False\<rparr>,
           \<lparr>todo_id = 3, content = ''c'', completed = False\<rparr>], shuffled_todos)"
    using list_sorted_by_id [of shuffled_todos]
    by (simp add: get_all_todos_eq shuffled_todos_def row_to_todo_def)
  have s: "sorted (map (\<lambda>r. sint (col_todo_id r)) (todos two_todos))"
    by (simp add: two_todos_def)
  from list_sorted_by_id [of two_todos] s
  have b: "fst (get_all_todos two_todos) = Inr (map row_to_todo (todos two_todos))"
    by auto
  then have "get_all_todos two_todos =
     (Inr [\<lparr>todo_id = 1, content = ''buy milk'', completed = False\<rparr>,
           \<lparr>todo_id = 2, content = ''walk dog'', completed = True\<rparr>], two_todos)"
    by (simp add: get_all_todos_eq two_todos_def row_to_todo_def)
  with a s b show ?thesis by simp
qed

text \<open>
  C4. The handlers' docstrings promise \<^verbatim>\<open>HTTPException: 404 if todo with given ID is not
  found\<close>, for every id. The code keeps the promise only for ids that SQLite can hold. At
  the id \<open>2\<^sup>6\<^sup>3\<close>, which no row can have, \<^verbatim>\<open>get_todo\<close> and \<^verbatim>\<open>update_todo\<close> never reach
  their check for a missing row: binding the id to the SELECT raises
  \<^verbatim>\<open>OverflowError\<close>, the connection rolls back, and the response is a 500 and not the 404
  naming the id. The store is left as it was.
\<close>

theorem out_of_range_id_answers_500:
  "9223372036854775808 \<notin> ids two_todos \<and>
   get_todo 9223372036854775808 two_todos = (Inl OverflowError, two_todos) \<and>
   serve (Get 9223372036854775808) two_todos =
     ((500, JsonDetail ''Internal Server Error''), two_todos) \<and>
   update_todo 9223372036854775808 \<lparr>update_content = None, update_completed = Some True\<rparr>
     two_todos = (Inl OverflowError, two_todos) \<and>
   serve (Update 9223372036854775808 \<lparr>json_content = None, json_completed = Some True\<rparr>)
     two_todos = ((500, JsonDetail ''Internal Server Error''), two_todos) \<and>
   fst (get_todo 9223372036854775808 two_todos) \<noteq> Inl (not_found 9223372036854775808)"
proof -
  have out: "\<not> (min_rowid \<le> 9223372036854775808 \<and> 9223372036854775808 \<le> max_rowid)"
    by (simp add: max_rowid_def)
  have absent: "9223372036854775808 \<notin> ids two_todos"
    using out by (rule out_of_range_absent)
  have get: "get_todo 9223372036854775808 two_todos = (Inl OverflowError, two_todos)"
    using out by (rule get_todo_out_of_range)
  have upd: "update_todo 9223372036854775808
      \<lparr>update_content = None, update_completed = Some True\<rparr> two_todos =
      (Inl OverflowError, two_todos)"
    using out by (rule update_todo_out_of_range)
  have "serve (Get 9223372036854775808) two_todos =
      ((500, JsonDetail ''Internal Server Error''), two_todos)"
    by (simp add: get response_def)
  moreover have "serve (Update 9223372036854775808
      \<lparr>json_content = None, json_completed = Some True\<rparr>) two_todos =
      ((500, JsonDetail ''Internal Server Error''), two_todos)"
    by (simp add: put_todo_def parse_TodoUpdate_def upd response_def)
  moreover have "fst (get_todo 9223372036854775808 two_todos) \<noteq>
      Inl (not_found 9223372036854775808)"
    by (simp add: get not_found_def)
  ultimately show ?thesis using absent get upd by (simp only: simp_thms)
qed

text \<open>
  For the ids that SQLite can hold, the three handlers do what their docstrings say: an id
  that no persisted row has gives the 404 whose detail spells the id in decimal (and the
  decimal numeral determines the id), the store is left as it was, and \<^verbatim>\<open>get_todo\<close>
  on the id of a persisted row returns that row as a record.
\<close>

lemma in_range_missing_id_not_found:
  "(min_rowid \<le> i \<and> i \<le> max_rowid \<and> i \<notin> ids d \<longrightarrow>
      get_todo i d = (Inl (HTTPException 404 (''Todo with id '' @ str_int i @ '' not found'')), d) \<and>
      update_todo i u d = (Inl (HTTPException 404 (''Todo with id '' @ str_int i @ '' not found'')), d) \<and>
      serve (Get i) d = ((404, JsonDetail (''Todo with id '' @ str_int i @ '' not found'')), d) \<and>
      (parse_TodoUpdate b = Inr u \<longrightarrow>
         serve (Update i b) d = ((404, JsonDetail (''Todo with id '' @ str_int i @ '' not found'')), d))) \<and>
   (\<forall>j. str_int j = str_int i \<longrightarrow> j = i) \<and>
   (distinct (map col_todo_id (todos d)) \<and> r \<in> set (todos d) \<longrightarrow>
      get_todo (sint (col_todo_id r)) d = (Inr (row_to_todo r), d) \<and>
      serve (Get (sint (col_todo_id r))) d = ((200, JsonTodo (row_to_todo r)), d))"
proof (intro conjI impI allI)
  assume h: "min_rowid \<le> i \<and> i \<le> max_rowid \<and> i \<notin> ids d"
  then have lo: "min_rowid \<le> i" and hi: "i \<le> max_rowid" by simp_all
  from h have none: "find (\<lambda>r. sint (col_todo_id r) = i) (todos d) = None"
    by (simp add: find_key_None)
  show get: "get_todo i d = (Inl (HTTPException 404 (''Todo with id '' @ str_int i @ '' not found'')), d)"
    by (simp add: get_todo_in_range [OF lo hi] none not_found_def)
  show upd: "update_todo i u d = (Inl (HTTPException 404 (''Todo with id '' @ str_int i @ '' not found'')), d)"
    by (simp add: update_todo_absent [OF lo hi none] not_found_def)
  show "serve (Get i) d = ((404, JsonDetail (''Todo with id '' @ str_int i @ '' not found'')), d)"
    by (simp add: get response_def)
  assume "parse_TodoUpdate b = Inr u"
  then show "serve (Update i b) d = ((404, JsonDetail (''Todo with id '' @ str_int i @ '' not found'')), d)"
    by (simp add: put_todo_def upd response_def)
next
  fix j assume "str_int j = str_int i"
  then show "j = i" by (rule str_int_inj)
next
  assume h: "distinct (map col_todo_id (todos d)) \<and> r \<in> set (todos d)"
  have lo: "min_rowid \<le> sint (col_todo_id r)" and hi: "sint (col_todo_id r) \<le> max_rowid"
    using sint_rowid_range [of "col_todo_id r"] by simp_all
  have some: "find (\<lambda>x. sint (col_todo_id x) = sint (col_todo_id r)) (todos d) = Some r"
    using h by (simp add: find_distinct_key)
  show get: "get_todo (sint (col_todo_id r)) d = (Inr (row_to_todo r), d)"
    by (simp add: get_todo_in_range [OF lo hi] some)
  show "serve (Get (sint (col_todo_id r))) d = ((200, JsonTodo (row_to_todo r)), d)"
    by (simp add: get response_def)
qed



text \<open>
  C6. A create request whose body has no \<^verbatim>\<open>content\<close> key, or an empty content string, is
  rejected by validation of \<^verbatim>\<open>TodoCreate\<close>: the handler is not called, the response is a
  422 naming the field and what is wrong with it, and the store is the one before.
\<close>

theorem create_rejects_empty_content:
  assumes "json_content b = None \<or> json_content b = Some []"
  shows "\<exists>k. post_todos b d = (Inl (RequestValidationError ''content'' k), d) \<and>
             serve (Create b) d = ((422, JsonInvalid ''content'' k), d) \<and>
             400 \<le> fst (fst (serve (Create b) d)) \<and> fst (fst (serve (Create b) d)) < 500 \<and>
             snd (serve (Create b) d) = d"
proof -
  from assms obtain k where "parse_TodoCreate b = Inl (RequestValidationError ''content'' k)"
    by (auto simp: parse_TodoCreate_def)
  then have "post_todos b d = (Inl (RequestValidationError ''content'' k), d)"
    by (simp add: post_todos_def)
  then show ?thesis by (simp add: response_def)
qed

theorem create_rejects_empty_content_witness:
  "json_content \<lparr>json_content = Some [], json_completed = Some True\<rparr> = Some [] \<and>
   post_todos \<lparr>json_content = Some [], json_completed = Some True\<rparr> two_todos =
     (Inl (RequestValidationError ''content'' String_too_short), two_todos) \<and>
   serve (Create \<lparr>json_content = Some [], json_completed = Some True\<rparr>) two_todos =
     ((422, JsonInvalid ''content'' String_too_short), two_todos) \<and>
   json_content \<lparr>json_content = None, json_completed = None\<rparr> = None \<and>
   post_todos \<lparr>json_content = None, json_completed = None\<rparr> two_todos =
     (Inl (RequestValidationError ''content'' Missing), two_todos) \<and>
   serve (Create \<lparr>json_content = None, json_completed = None\<rparr>) two_todos =
     ((422, JsonInvalid ''content'' Missing), two_todos)"
proof -
  have k1: "parse_TodoCreate \<lparr>json_content = Some [], json_completed = Some True\<rparr> =
      Inl (RequestValidationError ''content'' String_too_short)"
    by (simp add: parse_TodoCreate_def)
  have k2: "parse_TodoCreate \<lparr>json_content = None, json_completed = None\<rparr> =
      Inl (RequestValidationError ''content'' Missing)"
    by (simp add: parse_TodoCreate_def)
  from create_rejects_empty_content
    [of "\<lparr>json_content = Some [], json_completed = Some True\<rparr>" two_todos]
  have a: "post_todos \<lparr>json_content = Some [], json_completed = Some True\<rparr> two_todos =
     (Inl (RequestValidationError ''content'' String_too_short), two_todos) \<and>
   serve (Create \<lparr>json_content = Some [], json_completed = Some True\<rparr>) two_todos =
     ((422, JsonInvalid ''content'' String_too_short), two_todos)"
    by (auto simp: post_todos_def k1 simp del: serve.simps)
  from create_rejects_empty_content
    [of "\<lparr>json_content = None, json_completed = None\<rparr>" two_todos]
  have b: "post_todos \<lparr>json_content = None, json_completed = None\<rparr> two_todos =
     (Inl (RequestValidationError ''content'' Missing), two_todos) \<and>
   serve (Create \<lparr>json_content = None, json_completed = None\<rparr>) two_todos =
     ((422, JsonInvalid ''content'' Missing), two_todos)"
    by (auto simp: post_todos_def k2 simp del: serve.simps)
  from a b show ?thesis by (simp del: serve.simps)
qed

text \<open>
  C7. On an existing record, an update that supplies neither field leaves the whole store
  as it was and returns the record as it is stored.
\<close>

theorem update_without_fields_is_noop:
  assumes "distinct (map col_todo_id (todos d))" and "r \<in> set (todos d)"
  shows "put_todo (sint (col_todo_id r)) \<lparr>json_content = None, json_completed = None\<rparr> d =
           (Inr (row_to_todo r), d) \<and>
         update_todo (sint (col_todo_id r)) \<lparr>update_content = None, update_completed = None\<rparr> d =
           (Inr (row_to_todo r), d) \<and>
         serve (Update (sint (col_todo_id r)) \<lparr>json_content = None, json_completed = None\<rparr>) d =
           ((200, JsonTodo (row_to_todo r)), d)"
proof -
  let ?i = "sint (col_todo_id r)"
  have lo: "min_rowid \<le> ?i" and hi: "?i \<le> max_rowid"
    using sint_rowid_range [of "col_todo_id r"] by simp_all
  have found: "find (\<lambda>x. sint (col_todo_id x) = ?i) (todos d) = Some r"
    using assms by (rule find_distinct_key)
  have "update_todo ?i \<lparr>update_content = None, update_completed = None\<rparr> d =
          (Inr (row_to_todo r), d)"
    using update_todo_present [OF lo hi found] by (simp add: build_updates_def)
  then show ?thesis
    by (simp add: put_todo_def parse_TodoUpdate_def response_def)
qed

theorem update_without_fields_is_noop_witness:
  "distinct (map col_todo_id (todos two_todos)) \<and>
   \<lparr>col_todo_id = 2, col_content = ''walk dog'', col_completed = 1\<rparr> \<in> set (todos two_todos) \<and>
   put_todo 2 \<lparr>json_content = None, json_completed = None\<rparr> two_todos =
     (Inr \<lparr>todo_id = 2, content = ''walk dog'', completed = True\<rparr>, two_todos) \<and>
   update_todo 2 \<lparr>update_content = None, update_completed = None\<rparr> two_todos =
     (Inr \<lparr>todo_id = 2, content = ''walk dog'', completed = True\<rparr>, two_todos) \<and>
   serve (Update 2 \<lparr>json_content = None, json_completed = None\<rparr>) two_todos =
     ((200, JsonTodo \<lparr>todo_id = 2, content = ''walk dog'', completed = True\<rparr>), two_todos)"
  using update_without_fields_is_noop
    [of two_todos "\<lparr>col_todo_id = 2, col_content = ''walk dog'', col_completed = 1\<rparr>"]
  by (simp add: two_todos_def row_to_todo_def response_def)

text \<open>
  C8. Whatever the block under \<^verbatim>\<open>with get_db_connection()\<close> does, the connection is
  closed afterwards and holds no uncommitted change. When the block returns, its writes
  are committed (commit, then close) and its value is the result; when it raises, also
  after writes, the same exception is the result, the transaction is rolled back
  (rollback, then close) and the persisted state is the one before. All five handlers run
  their statements in such a block, so a request answered with an error status leaves the
  store exactly as it was.
\<close>

theorem scoped_connection_atomic:
  "(get_db_connection block d = (r, c) \<longrightarrow>
      \<not> is_open c \<and> working c = persisted c \<and>
      (\<forall>v. r = Inr v \<longrightarrow> block d = (Inr v, persisted c) \<and> calls c = [Commit, Close]) \<and>
      (\<forall>e. r = Inl e \<longrightarrow> fst (block d) = Inl e \<and> persisted c = d \<and>
                            calls c = [Rollback, Close])) \<and>
   (400 \<le> fst (fst (serve q s)) \<longrightarrow> snd (serve q s) = s)"
proof (intro conjI impI)
  assume run: "get_db_connection block d = (r, c)"
  obtain res w where blk: "block d = (res, w)" by (cases "block d")
  show "\<not> is_open c"
    using run blk
    by (cases res) (auto simp: get_db_connection_def connect_def commit_def rollback_def close_def)
  show "working c = persisted c"
    using run blk
    by (cases res) (auto simp: get_db_connection_def connect_def commit_def rollback_def close_def)
  show "\<forall>v. r = Inr v \<longrightarrow> block d = (Inr v, persisted c) \<and> calls c = [Commit, Close]"
    using run blk
    by (cases res) (auto simp: get_db_connection_def connect_def commit_def rollback_def close_def)
  show "\<forall>e. r = Inl e \<longrightarrow> fst (block d) = Inl e \<and> persisted c = d \<and>
                            calls c = [Rollback, Close]"
    using run blk
    by (cases res) (auto simp: get_db_connection_def connect_def commit_def rollback_def close_def)
next
  assume "400 \<le> fst (fst (serve q s))"
  then show "snd (serve q s) = s" by (rule failed_request_keeps_store)
qed

theorem scoped_connection_atomic_witness:
  "insert_then_fail two_todos =
     (Inl (OperationalError ''disk I/O error''),
      \<lparr>todos = [\<lparr>col_todo_id = 1, col_content = ''buy milk'', col_completed = 0\<rparr>,
                \<lparr>col_todo_id = 2, col_content = ''walk dog'', col_completed = 1\<rparr>,
                \<lparr>col_todo_id = 3, col_content = ''half done'', col_completed = 0\<rparr>],
       sqlite_sequence = 3\<rparr>) \<and>
   get_db_connection insert_then_fail two_todos =
     (Inl (OperationalError ''disk I/O error''),
      \<lparr>persisted = two_todos, working = two_todos, is_open = False,
       calls = [Rollback, Close]\<rparr>) \<and>
   get_db_connection
     (\<lambda>conn. case delete_where_id 1 conn of
                Inl e \<Rightarrow> (Inl e, conn)
              | Inr (rowcount, conn) \<Rightarrow> (Inr (), conn)) two_todos =
     (Inr (), \<lparr>persisted = one_todo, working = one_todo, is_open = False,
               calls = [Commit, Close]\<rparr>) \<and>
   fst (fst (serve (Delete 7) two_todos)) = 404 \<and>
   snd (serve (Delete 7) two_todos) = two_todos"
proof -
  have blk: "insert_then_fail two_todos =
     (Inl (OperationalError ''disk I/O error''),
      \<lparr>todos = [\<lparr>col_todo_id = 1, col_content = ''buy milk'', col_completed = 0\<rparr>,
                \<lparr>col_todo_id = 2, col_content = ''walk dog'', col_completed = 1\<rparr>,
                \<lparr>col_todo_id = 3, col_content = ''half done'', col_completed = 0\<rparr>],
       sqlite_sequence = 3\<rparr>)"
    by (simp add: insert_then_fail_def insert_todo_def next_rowid_def two_todos_def max_rowid_def)
  obtain r c where rc: "get_db_connection insert_then_fail two_todos = (r, c)"
    by (cases "get_db_connection insert_then_fail two_todos")
  have r: "r = Inl (OperationalError ''disk I/O error'')"
    using rc blk by (simp add: get_db_connection_def connect_def Let_def)
  have in7: "min_rowid \<le> 7" "7 \<le> max_rowid"
    by (simp_all add: min_rowid_def max_rowid_def)
  have st: "fst (fst (serve (Delete 7) two_todos)) = 404"
    by (simp add: delete_todo_in_range [OF in7] ids_def two_todos_def response_def not_found_def)
  note inst = scoped_connection_atomic
    [where block = insert_then_fail and d = two_todos and r = r and c = c
       and q = "Delete 7" and s = two_todos]
  from inst rc r have "\<not> is_open c" and "working c = persisted c" and "persisted c = two_todos"
    and "calls c = [Rollback, Close]"
    by blast+
  then have c: "c = \<lparr>persisted = two_todos, working = two_todos, is_open = False,
       calls = [Rollback, Close]\<rparr>"
    by (cases c) simp
  from inst st have keep: "snd (serve (Delete 7) two_todos) = two_todos"
    by simp
  have ok: "get_db_connection
     (\<lambda>conn. case delete_where_id 1 conn of
                Inl e \<Rightarrow> (Inl e, conn)
              | Inr (rowcount, conn) \<Rightarrow> (Inr (), conn)) two_todos =
     (Inr (), \<lparr>persisted = one_todo, working = one_todo, is_open = False,
               calls = [Commit, Close]\<rparr>)"
    by (simp add: get_db_connection_def connect_def commit_def close_def delete_where_id_def
        bind_int_def min_rowid_def max_rowid_def two_todos_def one_todo_def)
  from blk rc r c st keep ok show ?thesis by (simp del: serve.simps)
qed

text \<open>
  C9. In every store reached from the fresh database by any sequence of requests, the keys
  of the persisted rows are pairwise distinct, every content is non-empty, and every key is
  positive and at most the counter (it was handed out by the store). From such a
  store, an update leaves the list of keys as it is, a delete only removes rows, and a
  successful create appends one row whose key is larger than the counter, hence larger
  than every key handed out before, and moves the counter to it; no request lowers the
  counter.
\<close>

theorem reachable_store_invariant:
  assumes "d = run reqs"
  shows "distinct (map col_todo_id (todos d)) \<and>
         (\<forall>r\<in>set (todos d). col_content r \<noteq> [] \<and> 0 < sint (col_todo_id r) \<and>
                               sint (col_todo_id r) \<le> sint (sqlite_sequence d)) \<and>
         map col_todo_id (todos (snd (serve (Update i u) d))) = map col_todo_id (todos d) \<and>
         todos (snd (serve (Delete j) d)) =
           filter (\<lambda>r. sint (col_todo_id r) \<noteq> j) (todos d) \<and>
         (\<forall>t d'. post_todos b d = (Inr t, d') \<longrightarrow>
            todos d' = todos d @ [\<lparr>col_todo_id = word_of_int (todo_id t), col_content = content t,
                                   col_completed = of_bool (completed t)\<rparr>] \<and>
            sint (sqlite_sequence d) < todo_id t \<and> sint (sqlite_sequence d') = todo_id t) \<and>
         sint (sqlite_sequence d) \<le> sint (sqlite_sequence (snd (serve q d)))"
proof -
  have inv: "store_inv d"
    unfolding assms by (rule store_inv_run)
  then have uniq: "distinct (map col_todo_id (todos d))"
    and rows: "\<forall>r\<in>set (todos d). col_content r \<noteq> [] \<and> 0 < sint (col_todo_id r) \<and>
                               sint (col_todo_id r) \<le> sint (sqlite_sequence d)"
    by (simp_all add: store_inv_def)
  have upd: "map col_todo_id (todos (snd (serve (Update i u) d))) = map col_todo_id (todos d)"
    unfolding serve_store request.case put_todo_store
    by (simp add: updated_keys split: sum.splits)
  have del: "todos (snd (serve (Delete j) d)) =
      filter (\<lambda>r. sint (col_todo_id r) \<noteq> j) (todos d)"
    unfolding serve_store request.case delete_todo_store
    by simp
  have new: "\<forall>t d'. post_todos b d = (Inr t, d') \<longrightarrow>
            todos d' = todos d @ [\<lparr>col_todo_id = word_of_int (todo_id t), col_content = content t,
                                   col_completed = of_bool (completed t)\<rparr>] \<and>
            sint (sqlite_sequence d) < todo_id t \<and> sint (sqlite_sequence d') = todo_id t"
    using post_todos_created by blast
  from uniq rows upd del new serve_sequence_mono [of d q] show ?thesis
    by (simp only: simp_thms)
qed

theorem reachable_store_invariant_witness:
  "run example_requests =
     \<lparr>todos = [\<lparr>col_todo_id = 2, col_content = ''walk the dog'', col_completed = 1\<rparr>,
               \<lparr>col_todo_id = 3, col_content = ''call mum'', col_completed = 0\<rparr>],
      sqlite_sequence = 3\<rparr> \<and>
   distinct (map col_todo_id (todos (run example_requests))) \<and>
   map col_content (todos (run example_requests)) = [''walk the dog'', ''call mum''] \<and>
   map col_todo_id
     (todos (snd (serve (Update 3 \<lparr>json_content = Some ''call dad'', json_completed = None\<rparr>)
                   (run example_requests)))) = [2, 3] \<and>
   map col_todo_id (todos (snd (serve (Delete 2) (run example_requests)))) = [3] \<and>
   post_todos \<lparr>json_content = Some ''pay rent'', json_completed = None\<rparr> (run example_requests) =
     (Inr \<lparr>todo_id = 4, content = ''pay rent'', completed = False\<rparr>,
      \<lparr>todos = [\<lparr>col_todo_id = 2, col_content = ''walk the dog'', col_completed = 1\<rparr>,
                \<lparr>col_todo_id = 3, col_content = ''call mum'', col_completed = 0\<rparr>,
                \<lparr>col_todo_id = 4, col_content = ''pay rent'', col_completed = 0\<rparr>],
       sqlite_sequence = 4\<rparr>) \<and>
   sint (sqlite_sequence (run example_requests)) < 4"
proof -
  let ?b = "\<lparr>json_content = Some ''pay rent'', json_completed = None\<rparr>"
  have post: "post_todos ?b (run example_requests) =
     (Inr \<lparr>todo_id = 4, content = ''pay rent'', completed = False\<rparr>,
      \<lparr>todos = [\<lparr>col_todo_id = 2, col_content = ''walk the dog'', col_completed = 1\<rparr>,
                \<lparr>col_todo_id = 3, col_content = ''call mum'', col_completed = 0\<rparr>,
                \<lparr>col_todo_id = 4, col_content = ''pay rent'', col_completed = 0\<rparr>],
       sqlite_sequence = 4\<rparr>)"
    by (simp add: run_example_requests post_todos_def parse_TodoCreate_def create_todo_eq
        inserted_def next_rowid_def max_rowid_def)
  note inst = reachable_store_invariant
    [where d = "run example_requests" and reqs = example_requests and i = 3
       and u = "\<lparr>json_content = Some ''call dad'', json_completed = None\<rparr>"
       and j = 2 and b = ?b and q = "Delete 2", OF refl]
  have "map col_todo_id
     (todos (snd (serve (Update 3 \<lparr>json_content = Some ''call dad'', json_completed = None\<rparr>)
                   (run example_requests)))) = map col_todo_id (todos (run example_requests))"
    using inst by (simp only:)
  moreover have "todos (snd (serve (Delete 2) (run example_requests))) =
      filter (\<lambda>r. sint (col_todo_id r) \<noteq> 2) (todos (run example_requests))"
    using inst by (simp only:)
  moreover have "distinct (map col_todo_id (todos (run example_requests)))"
    using inst by (simp only:)
  moreover have "sint (sqlite_sequence (run example_requests)) <
      todo_id \<lparr>todo_id = 4, content = ''pay rent'', completed = False\<rparr>"
    using inst post by blast
  ultimately show ?thesis
    using post by (simp add: run_example_requests)
qed

text \<open>
  C10. An update whose body carries an empty content string is rejected by validation of
  \<^verbatim>\<open>TodoUpdate\<close> (\<^verbatim>\<open>min_length=1\<close> applies when content is supplied), for every id and
  every completed flag: the handler is not called, the response is a 422 and the store is
  the one before. So the update route never stores an empty content: if no persisted
  content is empty before an update request, none is empty after it, whatever the body.
\<close>

theorem update_rejects_empty_content:
  "put_todo i \<lparr>json_content = Some [], json_completed = flag\<rparr> d =
     (Inl (RequestValidationError ''content'' String_too_short), d) \<and>
   serve (Update i \<lparr>json_content = Some [], json_completed = flag\<rparr>) d =
     ((422, JsonInvalid ''content'' String_too_short), d) \<and>
   ((\<forall>r\<in>set (todos d). col_content r \<noteq> []) \<longrightarrow>
    (\<forall>r\<in>set (todos (snd (put_todo j b d))). col_content r \<noteq> []))"
proof -
  have "parse_TodoUpdate \<lparr>json_content = Some [], json_completed = flag\<rparr> =
      Inl (RequestValidationError ''content'' String_too_short)"
    by (simp add: parse_TodoUpdate_def)
  then have rej: "put_todo i \<lparr>json_content = Some [], json_completed = flag\<rparr> d =
     (Inl (RequestValidationError ''content'' String_too_short), d)"
    by (simp add: put_todo_def)
  then have "serve (Update i \<lparr>json_content = Some [], json_completed = flag\<rparr>) d =
     ((422, JsonInvalid ''content'' String_too_short), d)"
    by (simp add: response_def)
  with rej put_todo_contents [of d j b] show ?thesis by blast
qed

theorem update_rejects_empty_content_witness:
  "put_todo 1 \<lparr>json_content = Some [], json_completed = Some True\<rparr> two_todos =
     (Inl (RequestValidationError ''content'' String_too_short), two_todos) \<and>
   serve (Update 1 \<lparr>json_content = Some [], json_completed = Some True\<rparr>) two_todos =
     ((422, JsonInvalid ''content'' String_too_short), two_todos) \<and>
   map col_content (todos two_todos) = [''buy milk'', ''walk dog''] \<and>
   [] \<notin> col_content ` set (todos two_todos) \<and>
   [] \<notin> col_content `
     set (todos (snd (put_todo 2 \<lparr>json_content = Some ''walk cat'', json_completed = None\<rparr> two_todos)))"
proof -
  note inst = update_rejects_empty_content
    [where i = 1 and flag = "Some True" and d = two_todos and j = 2
       and b = "\<lparr>json_content = Some ''walk cat'', json_completed = None\<rparr>"]
  have pre: "\<forall>r\<in>set (todos two_todos). col_content r \<noteq> []"
    by (simp add: two_todos_def)
  with inst have "\<forall>r\<in>set (todos (snd (put_todo 2
      \<lparr>json_content = Some ''walk cat'', json_completed = None\<rparr> two_todos))). col_content r \<noteq> []"
    by blast
  then have post: "[] \<notin> col_content `
     set (todos (snd (put_todo 2 \<lparr>json_content = Some ''walk cat'', json_completed = None\<rparr> two_todos)))"
    by force
  from pre have pre': "[] \<notin> col_content ` set (todos two_todos)" by force
  have "map col_content (todos two_todos) = [''buy milk'', ''walk dog'']"
    by (simp add: two_todos_def)
  with inst post pre' show ?thesis by (simp only: simp_thms)
qed

end
